theory Spec2Isabelle
  imports Complex_Main "HOL-Library.Char_ord" "HOL-Library.List_Lexorder"
    "HOL-Library.Product_Lexorder"
begin

section \<open>Data model\<close>

text \<open>
  The dashboard script \<^verbatim>\<open>media.py\<close> reads one CSV file into a pandas data frame and
  derives every table from it.  A data frame is modelled as the list of its rows, in file
  order; the default index of the frame is the position of a row in that list.

  A cell of the \<^verbatim>\<open>Text\<close> column is whatever \<^verbatim>\<open>read_csv\<close> produced: a string, the
  missing value \<^verbatim>\<open>nan\<close>, an integer, another float, or a boolean.  A float other
  than \<^verbatim>\<open>nan\<close> is infinite or finite; a finite float is held as the shortest decimal
  that reads back as the same float, which is what Python prints it from: a sign, the
  digits, and the position of the decimal point relative to the first digit
  (2023.0 has the digits 2023 and the point after 4 of them; 0.0 has the digit 0 and
  the point after 1).  Strings are ASCII: a \<^typ>\<open>char\<close> is one byte,
  and the casing and white-space functions below leave every byte above 127 alone.
  \<^verbatim>\<open>Likes\<close> is an exact rational (the file holds integers or decimal fractions); the
  rounding of pandas' binary floats is not modelled.  Of the label columns only
  \<^verbatim>\<open>Country\<close> may be missing; \<^verbatim>\<open>Platform\<close> (on which the script calls \<^verbatim>\<open>.str\<close> and
  \<^verbatim>\<open>sorted\<close>), \<^verbatim>\<open>Sentiment\<close> and \<^verbatim>\<open>Likes\<close> hold a value in every row.
\<close>

datatype pyfloat = Finite bool string int | Infinite bool

datatype cell = CellStr string | CellNaN | CellInt int | CellFloat pyfloat | CellBool bool

record post =
  Platform :: string
  Country :: "string option"
  Year :: int
  Month :: string
  Day :: int
  Sentiment :: string
  Likes :: rat
  Text :: cell
  User :: string

datatype py_error = ValueError | KeyError | AttributeError | TypeError

section \<open>Python string operations\<close>

definition is_upper :: "char \<Rightarrow> bool" where
  "is_upper c = (CHR ''A'' \<le> c \<and> c \<le> CHR ''Z'')"

definition is_lower :: "char \<Rightarrow> bool" where
  "is_lower c = (CHR ''a'' \<le> c \<and> c \<le> CHR ''z'')"

definition is_cased :: "char \<Rightarrow> bool" where
  "is_cased c = (is_upper c \<or> is_lower c)"

definition to_lower :: "char \<Rightarrow> char" where
  "to_lower c = (if is_upper c then char_of (of_char c + (32::nat)) else c)"

definition to_upper :: "char \<Rightarrow> char" where
  "to_upper c = (if is_lower c then char_of (of_char c - (32::nat)) else c)"

text \<open>\<^verbatim>\<open>str.lower()\<close>.\<close>

definition lower :: "string \<Rightarrow> string" where
  "lower s = map to_lower s"

text \<open>
  \<^verbatim>\<open>str.title()\<close>: a character that follows a cased character is lower-cased, any other
  character is upper-cased.
\<close>

fun title_from :: "bool \<Rightarrow> string \<Rightarrow> string" where
  "title_from previous_is_cased [] = []"
| "title_from previous_is_cased (c # cs) =
     (if previous_is_cased then to_lower c else to_upper c) # title_from (is_cased c) cs"

definition title :: "string \<Rightarrow> string" where
  "title s = title_from False s"

text \<open>
  \<^verbatim>\<open>str.isspace()\<close> on one ASCII character: tab, line feed, vertical tab, form feed,
  carriage return, the four separators 28 to 31, and the space.
\<close>

definition is_space :: "char \<Rightarrow> bool" where
  "is_space c = (let n = (of_char c :: nat) in (9 \<le> n \<and> n \<le> 13) \<or> (28 \<le> n \<and> n \<le> 32))"

text \<open>
  \<^verbatim>\<open>str.split()\<close> without a separator: runs of white space separate the words, and no
  empty word is returned.  \<open>split_from w s\<close> scans \<open>s\<close> with the current word \<open>w\<close>.
\<close>

fun split_from :: "string \<Rightarrow> string \<Rightarrow> string list" where
  "split_from w [] = (if w = [] then [] else [w])"
| "split_from w (c # cs) =
     (if is_space c then (if w = [] then split_from [] cs else w # split_from [] cs)
      else split_from (w @ [c]) cs)"

definition split :: "string \<Rightarrow> string list" where
  "split s = split_from [] s"

text \<open>\<^verbatim>\<open>sep.join(words)\<close>.\<close>

fun join :: "string \<Rightarrow> string list \<Rightarrow> string" where
  "join sep [] = []"
| "join sep [w] = w"
| "join sep (w # v # ws) = w @ sep @ join sep (v # ws)"

text \<open>\<^verbatim>\<open>str(n)\<close> for an integer: the decimal digits, with a minus sign when negative.\<close>

definition digit_char :: "nat \<Rightarrow> char" where
  "digit_char d = char_of (48 + d)"

fun digits_of :: "nat \<Rightarrow> string" where
  "digits_of n = (if n < 10 then [digit_char n] else digits_of (n div 10) @ [digit_char (n mod 10)])"

declare digits_of.simps [simp del]

definition str_int :: "int \<Rightarrow> string" where
  "str_int i = (if i < 0 then CHR ''-'' # digits_of (nat (- i)) else digits_of (nat i))"

text \<open>
  \<^verbatim>\<open>str(x)\<close> for a float that is not \<^verbatim>\<open>nan\<close>.  The exponent form is used when the
  decimal point lies 4 or more places before the first digit or more than 16 places after
  it: one digit, the point and the other digits if there are any, then \<^verbatim>\<open>e\<close>, the sign
  and at least two digits of the exponent.  Otherwise the digits are written with the
  point in its place, zeros filling the gap, and \<^verbatim>\<open>.0\<close> closing an integral value.
\<close>

definition exponent_str :: "int \<Rightarrow> string" where
  "exponent_str e =
     (if e < 0 then ''-'' else ''+'')
     @ (if \<bar>e\<bar> < 10 then ''0'' else []) @ digits_of (nat \<bar>e\<bar>)"

fun mantissa_str :: "string \<Rightarrow> string" where
  "mantissa_str [] = []"
| "mantissa_str [d] = [d]"
| "mantissa_str (d # ds) = d # CHR ''.'' # ds"

fun float_repr :: "pyfloat \<Rightarrow> string" where
  "float_repr (Infinite negative) = (if negative then ''-inf'' else ''inf'')"
| "float_repr (Finite negative digits decpt) =
     (if negative then ''-'' else [])
     @ (if decpt \<le> - 4 \<or> decpt > 16 then mantissa_str digits @ ''e'' @ exponent_str (decpt - 1)
        else if decpt \<le> 0 then ''0.'' @ replicate (nat (- decpt)) CHR ''0'' @ digits
        else if int (length digits) \<le> decpt
          then digits @ replicate (nat decpt - length digits) CHR ''0'' @ ''.0''
        else take (nat decpt) digits @ ''.'' @ drop (nat decpt) digits)"

text \<open>\<^verbatim>\<open>str(value)\<close> on a cell; the missing value prints as \<^verbatim>\<open>nan\<close>.\<close>

fun str :: "cell \<Rightarrow> string" where
  "str (CellStr s) = s"
| "str CellNaN = ''nan''"
| "str (CellInt i) = str_int i"
| "str (CellFloat x) = float_repr x"
| "str (CellBool b) = (if b then ''True'' else ''False'')"

text \<open>A word as \<^const>\<open>split\<close> returns it: not empty, no white space inside.\<close>

definition is_word :: "string \<Rightarrow> bool" where
  "is_word w = (w \<noteq> [] \<and> (\<forall>c \<in> set w. \<not> is_space c))"

section \<open>pandas operations\<close>

text \<open>\<^verbatim>\<open>Series.unique()\<close>: the distinct values, in the order of their first appearance.\<close>

fun unique_acc :: "'a list \<Rightarrow> 'a list \<Rightarrow> 'a list" where
  "unique_acc seen [] = seen"
| "unique_acc seen (x # xs) =
     (if x \<in> set seen then unique_acc seen xs else unique_acc (seen @ [x]) xs)"

definition unique :: "'a list \<Rightarrow> 'a list" where
  "unique xs = unique_acc [] xs"

text \<open>
  Grouping is one pass over the rows: a row joins the group of its key, or opens a new
  group at the end.  \<open>groups\<close> keeps the groups in the order of first appearance.
\<close>

fun add_to_group :: "'k \<Rightarrow> 'v \<Rightarrow> ('k \<times> 'v list) list \<Rightarrow> ('k \<times> 'v list) list" where
  "add_to_group k v [] = [(k, [v])]"
| "add_to_group k v ((k', vs) # gs) =
     (if k = k' then (k', vs @ [v]) # gs else (k', vs) # add_to_group k v gs)"

definition groups :: "('r \<Rightarrow> 'k) \<Rightarrow> 'r list \<Rightarrow> ('k \<times> 'r list) list" where
  "groups key rows = foldl (\<lambda>gs r. add_to_group (key r) r gs) [] rows"

text \<open>The same pass, started from groups already built.\<close>

definition fold_groups :: "('r \<Rightarrow> 'k) \<Rightarrow> ('k \<times> 'r list) list \<Rightarrow> 'r list \<Rightarrow> ('k \<times> 'r list) list" where
  "fold_groups key gs rows = foldl (\<lambda>gs r. add_to_group (key r) r gs) gs rows"

text \<open>
  \<^verbatim>\<open>df.groupby(key)\<close>: the groups sorted by key, each holding its rows with their index
  labels, in frame order.
\<close>

definition groupby :: "('r \<Rightarrow> 'k::linorder) \<Rightarrow> 'r list \<Rightarrow> ('k \<times> (nat \<times> 'r) list) list" where
  "groupby key df = sort_key fst (groups (\<lambda>ir. key (snd ir)) (enumerate 0 df))"

text \<open>\<^verbatim>\<open>.size()\<close> of a grouping.\<close>

definition size_of :: "('k \<times> 'v list) list \<Rightarrow> ('k \<times> nat) list" where
  "size_of gs = map (\<lambda>(k, g). (k, length g)) gs"

text \<open>
  \<^verbatim>\<open>.mean()\<close> of a numeric series; on an empty series pandas returns the missing value,
  here \<open>None\<close>, and divides nothing.
\<close>

definition mean :: "rat list \<Rightarrow> rat option" where
  "mean xs = (if xs = [] then None else Some (sum_list xs / of_nat (length xs)))"

text \<open>
  \<^verbatim>\<open>.idxmax()\<close> of a series given as (label, value) pairs: the label of the first
  maximal value; pandas raises \<^verbatim>\<open>ValueError\<close> on an empty series.
\<close>

fun idxmax_from :: "'i \<times> 'v::linorder \<Rightarrow> ('i \<times> 'v) list \<Rightarrow> 'i" where
  "idxmax_from best [] = fst best"
| "idxmax_from best (x # xs) =
     (if snd best < snd x then idxmax_from x xs else idxmax_from best xs)"

fun idxmax :: "('i \<times> 'v::linorder) list \<Rightarrow> py_error + 'i" where
  "idxmax [] = Inl ValueError"
| "idxmax (x # xs) = Inr (idxmax_from x xs)"

text \<open>\<^verbatim>\<open>df.loc[label]\<close> on the default index; an unknown label raises \<^verbatim>\<open>KeyError\<close>.\<close>

definition loc :: "'r list \<Rightarrow> nat \<Rightarrow> py_error + 'r" where
  "loc df i = (if i < length df then Inr (df ! i) else Inl KeyError)"

text \<open>A list of results is a result: the first error, or all the values.\<close>

fun collect :: "('e + 'a) list \<Rightarrow> 'e + 'a list" where
  "collect [] = Inr []"
| "collect (x # xs) =
     (case x of Inl e \<Rightarrow> Inl e
      | Inr v \<Rightarrow> (case collect xs of Inl e \<Rightarrow> Inl e | Inr vs \<Rightarrow> Inr (v # vs)))"

text \<open>
  \<^verbatim>\<open>Series.value_counts()\<close>: the number of occurrences of each distinct value, largest
  first; and \<^verbatim>\<open>.nlargest(n)\<close>, which keeps the first \<open>n\<close> of the largest.  Both sorts
  are taken as stable here, so that equal counts stay in the order of first appearance.
\<close>

definition value_counts :: "'a list \<Rightarrow> ('a \<times> nat) list" where
  "value_counts xs = sort_key (\<lambda>c. - int (snd c)) (size_of (groups id xs))"

definition nlargest :: "nat \<Rightarrow> ('a \<times> nat) list \<Rightarrow> ('a \<times> nat) list" where
  "nlargest n cs = take n (sort_key (\<lambda>c. - int (snd c)) cs)"

text \<open>
  \<^verbatim>\<open>.unstack(fill_value=0)\<close> of the sizes of a grouping by two keys: one row per first
  key and one column per second key, both sorted, each row an association list from
  column label to count; a pair without a group gets 0.  The frame is a list of
  (row label, row).
\<close>

definition unstack :: "(('a::linorder \<times> 'b::linorder) \<times> nat) list \<Rightarrow> ('a \<times> ('b \<times> nat) list) list" where
  "unstack sizes =
     (let index = sort (unique (map (\<lambda>c. fst (fst c)) sizes));
          columns = sort (unique (map (\<lambda>c. snd (fst c)) sizes))
      in map (\<lambda>i. (i, map (\<lambda>c. (c, case map_of sizes (i, c) of None \<Rightarrow> 0 | Some n \<Rightarrow> n)) columns))
           index)"

text \<open>\<^verbatim>\<open>row[label] = value\<close>: replaces the column in place, or appends it.\<close>

fun assign :: "'c \<Rightarrow> 'v \<Rightarrow> ('c \<times> 'v) list \<Rightarrow> ('c \<times> 'v) list" where
  "assign c v [] = [(c, v)]"
| "assign c v ((c', v') # row) = (if c = c' then (c, v) # row else (c', v') # assign c v row)"

section \<open>Loading\<close>

text \<open>
  \<^verbatim>\<open>load_data\<close>: the rows read from the file, with the \<^verbatim>\<open>Platform\<close> column title-cased.
  The argument is what \<^verbatim>\<open>read_csv\<close> returned.
\<close>

definition load_data :: "post list \<Rightarrow> post list" where
  "load_data raw = map (\<lambda>r. r\<lparr>Platform := title (Platform r)\<rparr>) raw"

section \<open>Word cloud text\<close>

definition preprocess_text :: "cell \<Rightarrow> string" where
  "preprocess_text t = join '' '' [word \<leftarrow> split (lower (str t)). length word > 3]"

definition all_text :: "post list \<Rightarrow> string" where
  "all_text df = join '' '' (map (\<lambda>r. preprocess_text (Text r)) df)"

text \<open>
  The same two computations with the checks Python makes as it runs.  A Python value is
  a cell.  \<^verbatim>\<open>str(value)\<close> returns a string object for every value.  The methods
  \<^verbatim>\<open>lower\<close> and \<^verbatim>\<open>split\<close> exist on string objects only: on a float, an integer or a
  boolean the attribute lookup raises \<^verbatim>\<open>AttributeError\<close>.  \<^verbatim>\<open>len\<close> of a value that is
  not a string raises \<^verbatim>\<open>TypeError\<close>, and so does \<^verbatim>\<open>join\<close> on an item that is not a
  string.  An error ends the computation, in the comprehension and in \<^verbatim>\<open>apply\<close> alike.
\<close>

definition builtin_str :: "cell \<Rightarrow> cell" where
  "builtin_str v = CellStr (str v)"

fun attr_lower :: "cell \<Rightarrow> py_error + cell" where
  "attr_lower (CellStr s) = Inr (CellStr (lower s))"
| "attr_lower v = Inl AttributeError"

fun attr_split :: "cell \<Rightarrow> py_error + cell list" where
  "attr_split (CellStr s) = Inr (map CellStr (split s))"
| "attr_split v = Inl AttributeError"

fun builtin_len :: "cell \<Rightarrow> py_error + nat" where
  "builtin_len (CellStr s) = Inr (length s)"
| "builtin_len v = Inl TypeError"

fun join_item :: "cell \<Rightarrow> py_error + string" where
  "join_item (CellStr s) = Inr s"
| "join_item v = Inl TypeError"

definition join_checked :: "string \<Rightarrow> cell list \<Rightarrow> py_error + cell" where
  "join_checked sep items =
     (case collect (map join_item items) of
        Inl e \<Rightarrow> Inl e
      | Inr words \<Rightarrow> Inr (CellStr (join sep words)))"

text \<open>\<^verbatim>\<open>[word for word in words if len(word) > 3]\<close>\<close>

fun longer_than_3 :: "cell list \<Rightarrow> py_error + cell list" where
  "longer_than_3 [] = Inr []"
| "longer_than_3 (word # words) =
     (case builtin_len word of
        Inl e \<Rightarrow> Inl e
      | Inr n \<Rightarrow>
          (case longer_than_3 words of
             Inl e \<Rightarrow> Inl e
           | Inr kept \<Rightarrow> Inr (if n > 3 then word # kept else kept)))"

definition preprocess_text_checked :: "cell \<Rightarrow> py_error + cell" where
  "preprocess_text_checked text =
     (case attr_lower (builtin_str text) of
        Inl e \<Rightarrow> Inl e
      | Inr text \<Rightarrow>
          (case attr_split text of
             Inl e \<Rightarrow> Inl e
           | Inr words \<Rightarrow>
               (case longer_than_3 words of
                  Inl e \<Rightarrow> Inl e
                | Inr kept \<Rightarrow> join_checked '' '' kept)))"

definition all_text_checked :: "post list \<Rightarrow> py_error + cell" where
  "all_text_checked df =
     (case collect (map (\<lambda>r. preprocess_text_checked (Text r)) df) of
        Inl e \<Rightarrow> Inl e
      | Inr texts \<Rightarrow> join_checked '' '' texts)"

section \<open>Top post of a platform\<close>

definition unique_platforms :: "post list \<Rightarrow> string list" where
  "unique_platforms df = sort (unique (map Platform df))"

text \<open>\<^verbatim>\<open>df.loc[df.groupby("Platform")["Likes"].idxmax()]\<close>\<close>

definition most_liked_by_platform :: "post list \<Rightarrow> py_error + post list" where
  "most_liked_by_platform df =
     (case collect (map (\<lambda>(k, g). idxmax (map (\<lambda>(i, r). (i, Likes r)) g)) (groupby Platform df)) of
        Inl e \<Rightarrow> Inl e
      | Inr labels \<Rightarrow> collect (map (loc df) labels))"

text \<open>What the sidebar shows: the top post of the selected platform, or a warning.\<close>

datatype sidebar = Success string rat cell string | Warning string

definition platform_post :: "post list \<Rightarrow> string \<Rightarrow> post list" where
  "platform_post most_liked selected_platform_radio =
     [r \<leftarrow> most_liked. Platform r = selected_platform_radio]"

definition top_post_view :: "post list \<Rightarrow> string \<Rightarrow> py_error + sidebar" where
  "top_post_view df selected_platform_radio =
     (case most_liked_by_platform df of
        Inl e \<Rightarrow> Inl e
      | Inr most_liked \<Rightarrow>
          (case platform_post most_liked selected_platform_radio of
             [] \<Rightarrow> Inr (Warning (''No posts found for '' @ selected_platform_radio @ ''.''))
           | post # _ \<Rightarrow>
               Inr (Success selected_platform_radio (Likes post) (Text post) (User post))))"

section \<open>Sentiment and platform aggregates\<close>

definition top_10_sentiments :: "post list \<Rightarrow> string list" where
  "top_10_sentiments df = map fst (nlargest 10 (value_counts (map Sentiment df)))"

definition sentiment_filtered_df :: "post list \<Rightarrow> post list" where
  "sentiment_filtered_df df = [r \<leftarrow> df. Sentiment r \<in> set (top_10_sentiments df)]"

text \<open>The bars of the first chart: the count of each of the top labels.\<close>

definition sentiment_counts :: "post list \<Rightarrow> (string \<times> nat) list" where
  "sentiment_counts df = nlargest 10 (value_counts (map Sentiment df))"

definition likes_mean :: "('k \<times> (nat \<times> post) list) list \<Rightarrow> ('k \<times> rat option) list" where
  "likes_mean gs = map (\<lambda>(k, g). (k, mean (map (\<lambda>(i, r). Likes r) g))) gs"

definition platform_likes :: "post list \<Rightarrow> (string \<times> rat option) list" where
  "platform_likes df = likes_mean (groupby Platform df)"

definition sentiment_likes :: "post list \<Rightarrow> (string \<times> rat option) list" where
  "sentiment_likes df = likes_mean (groupby Sentiment (sentiment_filtered_df df))"

text \<open>\<^verbatim>\<open>df.pivot_table(index="Platform", columns="Sentiment", aggfunc="size", fill_value=0)\<close>\<close>

definition sentiment_platform_counts :: "post list \<Rightarrow> (string \<times> (string \<times> nat) list) list" where
  "sentiment_platform_counts df =
     unstack (size_of (groupby (\<lambda>r. (Platform r, Sentiment r)) df))"

text \<open>
  \<^verbatim>\<open>table.loc[i, c]\<close>, with \<open>None\<close> for an unknown label, and the sum of all cells.
\<close>

definition cell_at :: "('a \<times> ('b \<times> nat) list) list \<Rightarrow> 'a \<Rightarrow> 'b \<Rightarrow> nat option" where
  "cell_at table i c = (case map_of table i of None \<Rightarrow> None | Some row \<Rightarrow> map_of row c)"

definition cells_sum :: "('a \<times> ('b \<times> nat) list) list \<Rightarrow> nat" where
  "cells_sum table = sum_list (map (\<lambda>(i, row). sum_list (map snd row)) table)"

section \<open>Sentiment by country\<close>

text \<open>
  The grouping drops the rows without a country.  \<^verbatim>\<open>Total_Posts\<close> is assigned first;
  \<^verbatim>\<open>idxmax(axis=1)\<close> then runs over every column of the row.
\<close>

record country_row =
  country_name :: string
  counts :: "(string \<times> nat) list"
  Dominant_Sentiment :: "py_error + string"

definition country_sentiment :: "post list \<Rightarrow> country_row list" where
  "country_sentiment df =
     (let with_country = concat (map (\<lambda>r. case Country r of None \<Rightarrow> [] | Some c \<Rightarrow> [(c, r)]) df);
          table = unstack (size_of (groupby (\<lambda>cr. (fst cr, Sentiment (snd cr))) with_country))
      in map (\<lambda>(c, row).
               (let row' = assign ''Total_Posts'' (sum_list (map snd row)) row
                in \<lparr>country_name = c, counts = row', Dominant_Sentiment = idxmax row'\<rparr>))
           table)"

text \<open>
  The dominant sentiment as the specification words it: the first maximal column among
  the sentiment columns only, which are all the columns of the row but the last
  (\<^verbatim>\<open>columns[1:-2]\<close> of the finished frame).
\<close>

definition dominant_among_sentiments :: "country_row \<Rightarrow> py_error + string" where
  "dominant_among_sentiments r = idxmax (butlast (counts r))"

section \<open>Filters\<close>

record selection =
  selected_country :: string
  selected_year :: int
  selected_month :: string
  selected_day :: int

text \<open>
  The script assigns \<^verbatim>\<open>filtered_df\<close> twice, both times from \<^verbatim>\<open>df\<close>; the value that
  remains is the second one.  Every derived table is then computed from \<^verbatim>\<open>df\<close>.
\<close>

definition filtered_df :: "post list \<Rightarrow> selection \<Rightarrow> post list" where
  "filtered_df df sel =
     (let filtered_df = [r \<leftarrow> df. Country r = Some (selected_country sel)];
          filtered_df = [r \<leftarrow> df. Year r = selected_year sel \<and> Month r = selected_month sel
                                  \<and> Day r = selected_day sel]
      in filtered_df)"

record dashboard =
  shown_filtered_df :: "post list"
  shown_sentiment_counts :: "(string \<times> nat) list"
  shown_platform_likes :: "(string \<times> rat option) list"
  shown_sentiment_likes :: "(string \<times> rat option) list"
  shown_sentiment_platform_counts :: "(string \<times> (string \<times> nat) list) list"
  shown_country_sentiment :: "country_row list"

definition run :: "post list \<Rightarrow> selection \<Rightarrow> dashboard" where
  "run df sel =
     \<lparr>shown_filtered_df = filtered_df df sel,
      shown_sentiment_counts = sentiment_counts df,
      shown_platform_likes = platform_likes df,
      shown_sentiment_likes = sentiment_likes df,
      shown_sentiment_platform_counts = sentiment_platform_counts df,
      shown_country_sentiment = country_sentiment df\<rparr>"

text \<open>The rows that satisfy every selected predicate.\<close>

definition selected_rows :: "post list \<Rightarrow> selection \<Rightarrow> post list" where
  "selected_rows df sel =
     [r \<leftarrow> df. Country r = Some (selected_country sel) \<and> Year r = selected_year sel
               \<and> Month r = selected_month sel \<and> Day r = selected_day sel]"

text \<open>A top post of platform \<open>k\<close>: a row of the platform that no row of it exceeds in likes.\<close>

definition is_top :: "post list \<Rightarrow> string \<Rightarrow> post \<Rightarrow> bool" where
  "is_top df k best = (best \<in> set df \<and> Platform best = k
     \<and> (\<forall>r \<in> set df. Platform r = k \<longrightarrow> Likes r \<le> Likes best))"

section \<open>A fixture\<close>

text \<open>
  Five rows as they stand in a file, two of them differing only in the case of the
  platform name, and the frame loaded from them.
\<close>

definition row :: "string \<Rightarrow> string \<Rightarrow> int \<Rightarrow> string \<Rightarrow> int \<Rightarrow> string \<Rightarrow> rat \<Rightarrow> post" where
  "row p c y m d s l =
     \<lparr>Platform = p, Country = Some c, Year = y, Month = m, Day = d, Sentiment = s, Likes = l,
      Text = CellStr ''some words'', User = ''user''\<rparr>"

definition fixture_rows :: "post list" where
  "fixture_rows =
     [row ''Twitter'' ''US'' 2023 ''Jan'' 1 ''Joy'' 10,
      row ''twitter'' ''US'' 2023 ''Jan'' 1 ''Joy'' 50,
      row ''Facebook'' ''UK'' 2023 ''Feb'' 2 ''Anger'' 5,
      row ''Facebook'' ''UK'' 2023 ''Feb'' 2 ''Joy'' 20,
      row ''Instagram'' ''US'' 2023 ''Jan'' 1 ''Joy'' 1]"

definition fixture :: "post list" where
  "fixture = load_data fixture_rows"

text \<open>Twelve rows with eleven sentiment labels, the last label on two rows.\<close>

definition eleven_sentiments :: "post list" where
  "eleven_sentiments =
     map (\<lambda>s. row ''Twitter'' ''US'' 2023 ''Jan'' 1 s 1)
       [''A'', ''B'', ''C'', ''D'', ''E'', ''F'', ''G'', ''H'', ''I'', ''J'', ''K'', ''K'']"

text \<open>Three posts from one country: two of one sentiment, one of another.\<close>

definition joy_joy_anger :: "post list" where
  "joy_joy_anger =
     [row ''Twitter'' ''US'' 2023 ''Jan'' 1 ''Joy'' 10,
      row ''Twitter'' ''US'' 2023 ''Jan'' 1 ''Joy'' 50,
      row ''Facebook'' ''US'' 2023 ''Feb'' 2 ''Anger'' 5]"

text \<open>Two posts of the same day from two countries, and a selection of the first country.\<close>

definition two_countries :: "post list" where
  "two_countries =
     [row ''Twitter'' ''US'' 2023 ''Jan'' 1 ''Joy'' 10,
      row ''Facebook'' ''UK'' 2023 ''Jan'' 1 ''Anger'' 5]"

definition us_jan_1 :: selection where
  "us_jan_1 = \<lparr>selected_country = ''US'', selected_year = 2023, selected_month = ''Jan'',
                selected_day = 1\<rparr>"

section \<open>Words of a text\<close>

lemma is_space_to_lower: "is_space (to_lower c) = is_space c"
  by (auto simp: is_space_def to_lower_def is_upper_def less_eq_char_def Let_def)

lemma is_space_blank: "is_space CHR '' ''"
  by (simp add: is_space_def)

lemma split_from_lower:
  "split_from (map to_lower w) (map to_lower s) = map (map to_lower) (split_from w s)"
proof (induction s arbitrary: w)
  case (Cons c s)
  from Cons [of "[]"] Cons [of "w @ [c]"] show ?case
    by (simp add: is_space_to_lower)
qed simp

lemma split_lower: "split (lower s) = map lower (split s)"
proof -
  have "split_from [] (map to_lower s) = map (map to_lower) (split_from [] s)"
    using split_from_lower [of "[]" s] by simp
  then show ?thesis
    unfolding split_def lower_def [abs_def] .
qed

lemma split_from_append_space:
  "is_space c \<Longrightarrow> split_from w (s @ c # t) = split_from w s @ split_from [] t"
  by (induction s arbitrary: w) simp_all

lemma split_join: "split (join '' '' ts) = concat (map split ts)"
proof (induction ts)
  case (Cons w ts)
  show ?case
  proof (cases ts)
    case Nil
    then show ?thesis by simp
  next
    case (Cons v ws)
    have "split (w @ '' '' @ join '' '' ts) = split w @ split (join '' '' ts)"
      using split_from_append_space [OF is_space_blank, of "[]" w] by (simp add: split_def)
    with Cons \<open>split (join '' '' ts) = concat (map split ts)\<close> show ?thesis by simp
  qed
qed (simp add: split_def)

lemma split_from_words:
  "\<forall>c \<in> set w. \<not> is_space c \<Longrightarrow> v \<in> set (split_from w s) \<Longrightarrow> is_word v"
proof (induction s arbitrary: w)
  case Nil
  then show ?case by (auto simp: is_word_def split: if_splits)
next
  case (Cons c s)
  show ?case
  proof (cases "is_space c")
    case True
    with Cons.prems have "v = w \<and> w \<noteq> [] \<or> v \<in> set (split_from [] s)"
      by (auto split: if_splits)
    then show ?thesis
      using Cons.IH [of "[]"] Cons.prems(1) by (auto simp: is_word_def)
  next
    case False
    with Cons.prems have "v \<in> set (split_from (w @ [c]) s)" by simp
    moreover from False Cons.prems(1) have "\<forall>d \<in> set (w @ [c]). \<not> is_space d" by simp
    ultimately show ?thesis by (rule Cons.IH [rotated])
  qed
qed

lemma split_words: "v \<in> set (split s) \<Longrightarrow> is_word v"
  using split_from_words [of "[]" v s] by (simp add: split_def)

lemma split_from_word:
  "\<forall>c \<in> set s. \<not> is_space c \<Longrightarrow> split_from w s = (if w @ s = [] then [] else [w @ s])"
  by (induction s arbitrary: w) auto

lemma split_word: "is_word w \<Longrightarrow> split w = [w]"
  using split_from_word [of w "[]"] by (simp add: split_def is_word_def)

lemma concat_split_words: "\<forall>w \<in> set ws. is_word w \<Longrightarrow> concat (map split ws) = ws"
  by (induction ws) (simp_all add: split_word)

lemma split_join_words: "\<forall>w \<in> set ws. is_word w \<Longrightarrow> split (join '' '' ws) = ws"
  by (simp add: split_join concat_split_words)

lemma split_preprocess_text:
  "split (preprocess_text t) = [word \<leftarrow> split (lower (str t)). length word > 3]"
  unfolding preprocess_text_def by (rule split_join_words) (auto intro: split_words)

text \<open>
  C8.  The words of \<^verbatim>\<open>all_text\<close>, the string handed to the word cloud, are the words of
  every post's text in frame order: the text split at white space, each word
  lower-cased, and exactly the words longer than 3 characters kept.
\<close>

theorem token_stream:
  "split (all_text df) =
     concat (map (\<lambda>r. [word \<leftarrow> map lower (split (str (Text r))). length word > 3]) df)"
  by (simp add: all_text_def split_join comp_def split_preprocess_text split_lower)

section \<open>Grouping\<close>

lemma unique_acc_set: "set (unique_acc seen xs) = set seen \<union> set xs"
  by (induction xs arbitrary: seen) auto

lemma unique_acc_distinct: "distinct seen \<Longrightarrow> distinct (unique_acc seen xs)"
  by (induction xs arbitrary: seen) auto

lemma set_unique: "set (unique xs) = set xs"
  by (simp add: unique_def unique_acc_set)

lemma distinct_unique: "distinct (unique xs)"
  by (simp add: unique_def unique_acc_distinct)

lemma add_to_group_keys:
  "map fst (add_to_group k v gs) = (if k \<in> set (map fst gs) then map fst gs else map fst gs @ [k])"
  by (induction gs) force+

lemma add_to_group_map_of:
  "map_of (add_to_group k v gs) =
     (map_of gs)(k \<mapsto> (case map_of gs k of None \<Rightarrow> [v] | Some vs \<Rightarrow> vs @ [v]))"
  by (induction gs) (auto simp: fun_eq_iff)

lemma fold_groups_keys:
  "map fst (fold_groups key gs rows) = unique_acc (map fst gs) (map key rows)"
  unfolding fold_groups_def
  by (induction rows arbitrary: gs) (simp_all add: add_to_group_keys)

lemma fold_groups_map_of:
  "map_of (fold_groups key gs rows) k =
     (if map_of gs k = None \<and> k \<notin> key ` set rows then None
      else Some ((case map_of gs k of None \<Rightarrow> [] | Some vs \<Rightarrow> vs) @ [r \<leftarrow> rows. key r = k]))"
  unfolding fold_groups_def
proof (induction rows arbitrary: gs)
  case Nil
  then show ?case by (simp split: option.splits)
next
  case (Cons r rows)
  show ?case
    by (simp add: Cons.IH add_to_group_map_of split: option.splits)
qed

lemma groups_keys: "map fst (groups key rows) = unique (map key rows)"
  using fold_groups_keys [of key "[]" rows] by (simp add: groups_def fold_groups_def unique_def)

lemma groups_map_of:
  "map_of (groups key rows) k =
     (if k \<in> key ` set rows then Some [r \<leftarrow> rows. key r = k] else None)"
  using fold_groups_map_of [of key "[]" rows k] by (simp add: groups_def fold_groups_def)

lemma groups_distinct: "distinct (map fst (groups key rows))"
  by (simp add: groups_keys distinct_unique)

lemma map_insort_key: "map f (insort_key f x xs) = insort (f x) (map f xs)"
  by (induction xs) simp_all

lemma map_sort_key: "map f (sort_key f xs) = sort (map f xs)"
  by (induction xs) (simp_all add: map_insort_key)

lemma map_of_sort_key:
  assumes "distinct (map fst xs)"
  shows "map_of (sort_key fst xs) = map_of xs"
proof -
  have "distinct (map fst (sort_key fst xs))"
    using assms by (simp add: map_sort_key)
  then show ?thesis
    using assms by (simp add: map_of_inject_set)
qed

lemma map_key_enumerate: "map (\<lambda>ir. key (snd ir)) (enumerate n df) = map key df"
  by (induction df arbitrary: n) simp_all

lemma groupby_keys: "map fst (groupby key df) = sort (unique (map key df))"
  by (simp add: groupby_def map_sort_key groups_keys map_key_enumerate)

lemma groupby_map_of:
  "map_of (groupby key df) k =
     (if k \<in> key ` set df then Some [ir \<leftarrow> enumerate 0 df. key (snd ir) = k] else None)"
proof -
  have "set (map (\<lambda>ir. key (snd ir)) (enumerate 0 df)) = set (map key df)"
    by (simp only: map_key_enumerate)
  then have "(\<lambda>ir. key (snd ir)) ` set (enumerate 0 df) = key ` set df"
    by simp
  then show ?thesis
    by (simp add: groupby_def map_of_sort_key groups_distinct groups_map_of)
qed

lemma groupby_distinct: "distinct (map fst (groupby key df))"
  by (simp add: groupby_keys distinct_unique)

lemma groupby_member:
  "(k, g) \<in> set (groupby key df) \<longleftrightarrow>
     k \<in> key ` set df \<and> g = [ir \<leftarrow> enumerate 0 df. key (snd ir) = k]"
proof -
  have "(k, g) \<in> set (groupby key df) \<longleftrightarrow> map_of (groupby key df) k = Some g"
    using groupby_distinct [of key df] by simp
  then show ?thesis
    by (auto simp: groupby_map_of)
qed

lemma groupby_nonempty: "(k, g) \<in> set (groupby key df) \<Longrightarrow> g \<noteq> []"
proof -
  assume "(k, g) \<in> set (groupby key df)"
  then have k: "k \<in> key ` set df" and g: "g = [ir \<leftarrow> enumerate 0 df. key (snd ir) = k]"
    by (simp_all add: groupby_member)
  from k obtain r where "r \<in> set df" "key r = k" by auto
  then obtain i where "i < length df" "df ! i = r" by (auto simp: in_set_conv_nth)
  then have "(i, r) \<in> set (enumerate 0 df)" by (simp add: in_set_enumerate_eq)
  with \<open>key r = k\<close> have "(i, r) \<in> set [ir \<leftarrow> enumerate 0 df. key (snd ir) = k]" by simp
  with g show ?thesis by force
qed

section \<open>Mean likes of a platform\<close>

lemma filter_enumerate:
  "map snd [ir \<leftarrow> enumerate n df. P (snd ir)] = [r \<leftarrow> df. P r]"
  by (induction df arbitrary: n) simp_all

lemma group_likes:
  "map (\<lambda>(i, r). Likes r) [ir \<leftarrow> enumerate 0 df. key (snd ir) = k] = map Likes [r \<leftarrow> df. key r = k]"
proof -
  let ?g = "[ir \<leftarrow> enumerate 0 df. key (snd ir) = k]"
  have "map (\<lambda>(i, r). Likes r) ?g = map Likes (map snd ?g)"
    by (simp add: case_prod_unfold)
  also have "map snd ?g = [r \<leftarrow> df. key r = k]"
    by (rule filter_enumerate)
  finally show ?thesis .
qed

lemma likes_mean_map_of:
  "map_of (likes_mean gs) k = map_option (\<lambda>g. mean (map (\<lambda>(i, r). Likes r) g)) (map_of gs k)"
  unfolding likes_mean_def by (induction gs) auto

lemma mean_groupby:
  "map_of (likes_mean (groupby key df)) k =
     (if k \<in> key ` set df then Some (mean (map Likes [r \<leftarrow> df. key r = k])) else None)"
  by (simp add: likes_mean_map_of groupby_map_of group_likes)

lemma filter_key_nonempty: "k \<in> key ` set df \<Longrightarrow> [r \<leftarrow> df. key r = k] \<noteq> []"
  by (auto simp: filter_empty_conv)

text \<open>
  C6.  For every platform present in the frame given to it, \<^verbatim>\<open>platform_likes\<close> maps
  the platform to the sum of the likes of its posts divided by their number, which is
  not zero; a platform without a row is not a key; the keys are the platforms present,
  each once, sorted.
\<close>

theorem platform_likes_mean:
  "(p \<in> Platform ` set df \<longrightarrow>
      [r \<leftarrow> df. Platform r = p] \<noteq> [] \<and>
      map_of (platform_likes df) p =
        Some (Some (sum_list (map Likes [r \<leftarrow> df. Platform r = p])
                    / of_nat (length [r \<leftarrow> df. Platform r = p]))))
   \<and> (p \<notin> Platform ` set df \<longrightarrow> map_of (platform_likes df) p = None)
   \<and> map fst (platform_likes df) = sort (unique (map Platform df))"
proof -
  have "map fst (likes_mean gs) = map fst gs" for gs :: "(string \<times> (nat \<times> post) list) list"
    by (simp add: likes_mean_def case_prod_unfold)
  then show ?thesis
    by (simp add: platform_likes_def mean_groupby mean_def filter_key_nonempty groupby_keys)
qed

theorem platform_likes_mean_witness:
  "''Facebook'' \<in> Platform ` set fixture
   \<and> map_of (platform_likes fixture) ''Facebook'' = Some (Some (25 / 2))
   \<and> ''Myspace'' \<notin> Platform ` set fixture
   \<and> map_of (platform_likes fixture) ''Myspace'' = None"
proof -
  have p: "map Platform fixture = [''Twitter'', ''Twitter'', ''Facebook'', ''Facebook'', ''Instagram'']"
    by code_simp
  have l: "map Likes [r \<leftarrow> fixture. Platform r = ''Facebook''] = [5, 20]"
    by code_simp
  have s: "Platform ` set fixture = set (map Platform fixture)" by simp
  have n: "length [r \<leftarrow> fixture. Platform r = ''Facebook''] = length (map Likes [r \<leftarrow> fixture. Platform r = ''Facebook''])"
    by simp
  show ?thesis
    using platform_likes_mean [of "''Facebook''" fixture] platform_likes_mean [of "''Myspace''" fixture]
    unfolding s p n l by simp
qed

section \<open>Top post and platform names\<close>

lemma idxmax_from_max:
  "\<exists>v. (idxmax_from b xs, v) \<in> set (b # xs) \<and> (\<forall>y \<in> set (b # xs). snd y \<le> v)"
proof (induction xs arbitrary: b)
  case Nil
  show ?case by (cases b) simp
next
  case (Cons x xs)
  show ?case
  proof (cases "snd b < snd x")
    case True
    from Cons [of x] obtain v where "(idxmax_from x xs, v) \<in> set (x # xs)"
      and "\<forall>y \<in> set (x # xs). snd y \<le> v" by blast
    with True show ?thesis by (intro exI [of _ v]) auto
  next
    case False
    from Cons [of b] obtain v where "(idxmax_from b xs, v) \<in> set (b # xs)"
      and "\<forall>y \<in> set (b # xs). snd y \<le> v" by blast
    with False show ?thesis by (intro exI [of _ v]) auto
  qed
qed

lemma idxmax_max:
  assumes "ps \<noteq> []"
  shows "\<exists>i v. idxmax ps = Inr i \<and> (i, v) \<in> set ps \<and> (\<forall>y \<in> set ps. snd y \<le> v)"
proof -
  from assms obtain b xs where "ps = b # xs" by (cases ps) auto
  then show ?thesis using idxmax_from_max [of b xs] by auto
qed

lemma collect_Inr: "collect (map Inr xs) = Inr xs"
  by (induction xs) simp_all

lemma collect_all2:
  "list_all2 (\<lambda>x y. \<exists>v. x = Inr v \<and> Q y v) xs ys \<Longrightarrow> \<exists>vs. collect xs = Inr vs \<and> list_all2 Q ys vs"
proof (induction xs ys rule: list_all2_induct)
  case Nil
  show ?case by simp
next
  case (Cons x xs y ys)
  then obtain v vs where "x = Inr v" "Q y v" "collect xs = Inr vs" "list_all2 Q ys vs" by blast
  then show ?case by simp
qed

text \<open>The best row of one group.\<close>

lemma group_idxmax:
  assumes "(k, g) \<in> set (groupby key df)"
  shows "\<exists>i. idxmax (map (\<lambda>(i, r). (i, Likes r)) g) = Inr i \<and> i < length df \<and> key (df ! i) = k
           \<and> (\<forall>r \<in> set df. key r = k \<longrightarrow> Likes r \<le> Likes (df ! i))"
proof -
  from assms have g: "g = [ir \<leftarrow> enumerate 0 df. key (snd ir) = k]"
    by (simp add: groupby_member)
  from assms have "g \<noteq> []" by (rule groupby_nonempty)
  then have "map (\<lambda>(i, r). (i, Likes r)) g \<noteq> []" by simp
  from idxmax_max [OF this] obtain i v where i: "idxmax (map (\<lambda>(i, r). (i, Likes r)) g) = Inr i"
    and mem: "(i, v) \<in> set (map (\<lambda>(i, r). (i, Likes r)) g)"
    and best: "\<forall>y \<in> set (map (\<lambda>(i, r). (i, Likes r)) g). snd y \<le> v" by blast
  from mem obtain r where "(i, r) \<in> set g" "v = Likes r" by auto
  with g have ir: "i < length df" "df ! i = r" "key r = k"
    by (auto simp: in_set_enumerate_eq)
  have "Likes r' \<le> v" if "r' \<in> set df" "key r' = k" for r'
  proof -
    from that obtain j where "j < length df" "df ! j = r'" by (auto simp: in_set_conv_nth)
    with that g have "(j, r') \<in> set g" by (simp add: in_set_enumerate_eq)
    then have "(j, Likes r') \<in> set (map (\<lambda>(i, r). (i, Likes r)) g)" by force
    with best show ?thesis by fastforce
  qed
  with i ir \<open>v = Likes r\<close> show ?thesis by auto
qed


lemma most_liked_rows:
  "\<exists>rows. most_liked_by_platform df = Inr rows
     \<and> list_all2 (\<lambda>kg best. is_top df (fst kg) best) (groupby Platform df) rows"
proof -
  let ?G = "groupby Platform df"
  let ?f = "\<lambda>(k, g). idxmax (map (\<lambda>(i, r). (i, Likes r)) g)"
  let ?Q = "\<lambda>kg i. i < length df \<and> is_top df (fst kg) (df ! i)"
  have "list_all2 (\<lambda>x kg. \<exists>i. x = Inr i \<and> ?Q kg i) (map ?f ?G) ?G"
  proof -
    have "\<exists>i. ?f kg = Inr i \<and> ?Q kg i" if "kg \<in> set ?G" for kg
    proof -
      obtain k g where kg: "kg = (k, g)" by (cases kg)
      with that group_idxmax [of k g Platform df] show ?thesis
        by (auto simp: is_top_def)
    qed
    then show ?thesis by (simp add: list_all2_map1 list_all2_same)
  qed
  from collect_all2 [OF this] obtain labels where labels: "collect (map ?f ?G) = Inr labels"
    and 1: "list_all2 ?Q ?G labels" by blast
  from 1 have "\<forall>i \<in> set labels. i < length df"
    by (auto simp: list_all2_conv_all_nth in_set_conv_nth)
  then have "list_all2 (\<lambda>x i. \<exists>v. x = Inr v \<and> v = df ! i) (map (loc df) labels) labels"
    by (simp add: list_all2_map1 list_all2_same loc_def)
  from collect_all2 [OF this] obtain rows where rows: "collect (map (loc df) labels) = Inr rows"
    and 2: "list_all2 (\<lambda>i v. v = df ! i) labels rows" by blast
  from 1 2 have "list_all2 (\<lambda>kg best. is_top df (fst kg) best) ?G rows"
    by (auto simp: list_all2_conv_all_nth)
  with labels rows show ?thesis
    by (simp add: most_liked_by_platform_def)
qed

lemma most_liked_platforms:
  assumes "list_all2 (\<lambda>kg best. is_top df (fst kg) best) (groupby Platform df) rows"
  shows "map Platform rows = sort (unique (map Platform df))"
proof -
  from assms have "list_all2 (\<lambda>kg best. fst kg = Platform best) (groupby Platform df) rows"
    by (rule list_all2_mono) (simp add: is_top_def)
  then have "map fst (groupby Platform df) = map Platform rows"
    by (simp add: list.rel_eq [symmetric] list.rel_map)
  then show ?thesis by (simp add: groupby_keys)
qed

lemma filter_distinct_key:
  "distinct (map f xs) \<Longrightarrow> x \<in> set xs \<Longrightarrow> [y \<leftarrow> xs. f y = f x] = [x]"
proof (induction xs)
  case (Cons a xs)
  show ?case
  proof (cases "a = x")
    case True
    with Cons.prems have "f x \<notin> f ` set xs" by simp
    then have "\<forall>y \<in> set xs. f y \<noteq> f x" by (metis imageI)
    then have "[y \<leftarrow> xs. f y = f x] = []"
      by (simp add: filter_empty_conv)
    with True show ?thesis by simp
  next
    case False
    with Cons show ?thesis by auto
  qed
qed simp

text \<open>
  C3.  For every platform present in the frame, the frame of top posts is computed
  without error and holds exactly one row of that platform; that row is a row of the
  frame, and its likes are the maximum of the likes over the posts of the platform.
\<close>

theorem top_post_likes_max:
  assumes "p \<in> Platform ` set df"
  shows "\<exists>rows best. most_liked_by_platform df = Inr rows \<and> platform_post rows p = [best]
           \<and> best \<in> set df \<and> Platform best = p
           \<and> Likes best = Max (Likes ` {r \<in> set df. Platform r = p})"
proof -
  from most_liked_rows [of df] obtain rows where rows: "most_liked_by_platform df = Inr rows"
    and all: "list_all2 (\<lambda>kg best. is_top df (fst kg) best) (groupby Platform df) rows" by blast
  have plats: "map Platform rows = sort (unique (map Platform df))"
    using all by (rule most_liked_platforms)
  then have "distinct (map Platform rows)"
    by (simp add: distinct_unique)
  moreover from plats assms have "p \<in> set (map Platform rows)"
    by (simp add: set_unique)
  then obtain best where best: "best \<in> set rows" "Platform best = p" by auto
  ultimately have one: "platform_post rows p = [best]"
    using filter_distinct_key [of Platform rows best] by (simp add: platform_post_def)
  from best(1) all obtain kg where "is_top df (fst kg) best"
    by (auto simp: list_all2_conv_all_nth in_set_conv_nth)
  with best(2) have t: "is_top df p best" by (simp add: is_top_def)
  have "Max (Likes ` {r \<in> set df. Platform r = p}) = Likes best"
    using t by (intro Max_eqI) (auto simp: is_top_def)
  with rows one t show ?thesis by (auto simp: is_top_def)
qed

text \<open>
  C9.  When no row has the selected platform, the top-post view raises nothing and
  shows no post: its result is the warning that no posts were found for the platform.
\<close>

theorem empty_group_warning:
  assumes "selected_platform_radio \<notin> Platform ` set df"
  shows "top_post_view df selected_platform_radio =
           Inr (Warning (''No posts found for '' @ selected_platform_radio @ ''.''))"
proof -
  from most_liked_rows [of df] obtain rows where rows: "most_liked_by_platform df = Inr rows"
    and all: "list_all2 (\<lambda>kg best. is_top df (fst kg) best) (groupby Platform df) rows" by blast
  have "set (map Platform rows) = Platform ` set df"
    using most_liked_platforms [OF all] by (simp add: set_unique)
  with assms have "platform_post rows selected_platform_radio = []"
    by (auto simp: platform_post_def filter_empty_conv)
  with rows show ?thesis by (simp add: top_post_view_def)
qed


lemma fixture_platforms:
  "map Platform fixture = [''Twitter'', ''Twitter'', ''Facebook'', ''Facebook'', ''Instagram'']"
  by code_simp

theorem top_post_likes_max_witness:
  "''Twitter'' \<in> Platform ` set fixture
   \<and> (\<exists>rows best. most_liked_by_platform fixture = Inr rows
         \<and> platform_post rows ''Twitter'' = [best] \<and> Likes best = 50)"
proof -
  have s: "Platform ` set fixture = set (map Platform fixture)" by simp
  have mem: "''Twitter'' \<in> Platform ` set fixture"
    unfolding s fixture_platforms by simp
  have "Likes ` {r \<in> set fixture. Platform r = ''Twitter''}
      = set (map Likes [r \<leftarrow> fixture. Platform r = ''Twitter''])" by auto
  also have "map Likes [r \<leftarrow> fixture. Platform r = ''Twitter''] = [10, 50]" by code_simp
  finally have "Max (Likes ` {r \<in> set fixture. Platform r = ''Twitter''}) = 50" by simp
  with top_post_likes_max [OF mem] mem show ?thesis by auto
qed

theorem empty_group_warning_witness:
  "''Myspace'' \<notin> Platform ` set fixture
   \<and> top_post_view fixture ''Myspace'' = Inr (Warning ''No posts found for Myspace.'')"
proof -
  have s: "Platform ` set fixture = set (map Platform fixture)" by simp
  have mem: "''Myspace'' \<notin> Platform ` set fixture"
    unfolding s fixture_platforms by simp
  with empty_group_warning [OF mem] show ?thesis by simp
qed

text \<open>
  C7.  Loading title-cases the platform of every row.  Two rows whose platforms are
  \<^verbatim>\<open>twitter\<close> and \<^verbatim>\<open>Twitter\<close> load as two rows of the one platform \<^verbatim>\<open>Twitter\<close>:
  one group, holding both rows, of size 2.
\<close>

theorem platform_case_merge:
  "map Platform (load_data raw) = map (\<lambda>r. title (Platform r)) raw
   \<and> (let df = load_data [r1\<lparr>Platform := ''twitter''\<rparr>, r2\<lparr>Platform := ''Twitter''\<rparr>]
      in map Platform df = [''Twitter'', ''Twitter'']
         \<and> unique_platforms df = [''Twitter'']
         \<and> groupby Platform df
             = [(''Twitter'', [(0, r1\<lparr>Platform := ''Twitter''\<rparr>), (1, r2\<lparr>Platform := ''Twitter''\<rparr>)])]
         \<and> size_of (groupby Platform df) = [(''Twitter'', 2)])"
proof -
  have t1: "title ''twitter'' = ''Twitter''" by code_simp
  have t2: "title ''Twitter'' = ''Twitter''" by code_simp
  show ?thesis
    by (simp add: load_data_def comp_def t1 t2 Let_def unique_platforms_def unique_def
        groupby_def groups_def size_of_def)
qed

section \<open>Pivot of platforms by sentiments\<close>

lemma size_of_map_of: "map_of (size_of gs) k = map_option length (map_of gs k)"
  unfolding size_of_def by (induction gs) auto

lemma size_of_keys: "map fst (size_of gs) = map fst gs"
  by (simp add: size_of_def case_prod_unfold)

lemma length_filter_enumerate:
  "length [ir \<leftarrow> enumerate n df. P (snd ir)] = length [r \<leftarrow> df. P r]"
  using filter_enumerate [of P n df] by (metis length_map)

lemma sizes_groupby_map_of:
  "map_of (size_of (groupby key df)) k =
     (if k \<in> key ` set df then Some (length [r \<leftarrow> df. key r = k]) else None)"
  using length_filter_enumerate [of "\<lambda>r. key r = k" 0 df]
  by (simp add: size_of_map_of groupby_map_of)

lemma sizes_groupby_keys: "set (map fst (size_of (groupby key df))) = key ` set df"
  by (simp add: size_of_keys groupby_keys set_unique)

lemma sort_unique_cong: "set xs = set ys \<Longrightarrow> sort (unique xs) = sort (unique ys)"
  by (intro sorted_distinct_set_unique) (simp_all add: distinct_unique set_unique)

lemma map_of_tabulate:
  "map_of (map (\<lambda>k. (k, f k)) ks) k = (if k \<in> set ks then Some (f k) else None)"
  by (induction ks) auto

lemma count_partition:
  "distinct ks \<Longrightarrow> f ` set xs \<subseteq> set ks \<Longrightarrow>
     sum_list (map (\<lambda>k. length [x \<leftarrow> xs. f x = k]) ks) = length xs"
proof (induction xs)
  case Nil
  show ?case by simp
next
  case (Cons x xs)
  have "sum_list (map (\<lambda>k. length [y \<leftarrow> x # xs. f y = k]) ks)
      = sum_list (map (\<lambda>k. (if f x = k then 1 else 0) + length [y \<leftarrow> xs. f y = k]) ks)"
    by (intro arg_cong [where f = sum_list] map_cong) auto
  also have "\<dots> = sum_list (map (\<lambda>k. if f x = k then 1 else 0) ks)
                  + sum_list (map (\<lambda>k. length [y \<leftarrow> xs. f y = k]) ks)"
    by (simp add: sum_list_addf)
  also have "sum_list (map (\<lambda>k. if f x = k then 1 else 0) ks) = (1::nat)"
    using Cons.prems by (simp add: sum_list_distinct_conv_sum_set)
  finally show ?case using Cons by simp
qed


lemma unstack_groupby:
  "unstack (size_of (groupby (\<lambda>r. (f r, g r)) rows)) =
     map (\<lambda>i. (i, map (\<lambda>c. (c, length [r \<leftarrow> rows. f r = i \<and> g r = c]))
                      (sort (unique (map g rows)))))
       (sort (unique (map f rows)))"
proof -
  let ?sizes = "size_of (groupby (\<lambda>r. (f r, g r)) rows)"
  have keys: "set (map fst ?sizes) = (\<lambda>r. (f r, g r)) ` set rows"
    by (rule sizes_groupby_keys)
  have "set (map (\<lambda>c. fst (fst c)) ?sizes) = fst ` set (map fst ?sizes)"
    by (simp add: image_image)
  also have "\<dots> = set (map f rows)"
    unfolding keys by (simp add: image_image)
  finally have index: "sort (unique (map (\<lambda>c. fst (fst c)) ?sizes)) = sort (unique (map f rows))"
    by (rule sort_unique_cong)
  have "set (map (\<lambda>c. snd (fst c)) ?sizes) = snd ` set (map fst ?sizes)"
    by (simp add: image_image)
  also have "\<dots> = set (map g rows)"
    unfolding keys by (simp add: image_image)
  finally have columns: "sort (unique (map (\<lambda>c. snd (fst c)) ?sizes)) = sort (unique (map g rows))"
    by (rule sort_unique_cong)
  have cell: "(case map_of ?sizes (i, c) of None \<Rightarrow> 0 | Some n \<Rightarrow> n)
      = length [r \<leftarrow> rows. f r = i \<and> g r = c]" for i c
  proof (cases "(i, c) \<in> (\<lambda>r. (f r, g r)) ` set rows")
    case True
    then show ?thesis by (simp add: sizes_groupby_map_of)
  next
    case False
    then have "[r \<leftarrow> rows. f r = i \<and> g r = c] = []"
      by (auto simp: filter_empty_conv)
    with False show ?thesis by (simp add: sizes_groupby_map_of)
  qed
  show ?thesis
    unfolding unstack_def Let_def index columns cell ..
qed

lemma cell_at_tabulate:
  "cell_at (map (\<lambda>i. (i, map (\<lambda>c. (c, n i c)) columns)) index) i c =
     (if i \<in> set index \<and> c \<in> set columns then Some (n i c) else None)"
  by (simp add: cell_at_def map_of_tabulate)

lemma cells_sum_tabulate:
  "cells_sum (map (\<lambda>i. (i, map (\<lambda>c. (c, n i c)) columns)) index) =
     sum_list (map (\<lambda>i. sum_list (map (n i) columns)) index)"
  by (simp add: cells_sum_def comp_def)

lemma cross_count:
  "sum_list (map (\<lambda>i. sum_list (map (\<lambda>c. length [r \<leftarrow> rows. f r = i \<and> g r = c])
                                   (sort (unique (map g rows)))))
      (sort (unique (map f rows)))) = length rows"
proof -
  have inner: "sum_list (map (\<lambda>c. length [r \<leftarrow> rows. f r = i \<and> g r = c]) (sort (unique (map g rows))))
      = length [r \<leftarrow> rows. f r = i]" for i
  proof -
    have "sum_list (map (\<lambda>c. length [r \<leftarrow> [r \<leftarrow> rows. f r = i]. g r = c]) (sort (unique (map g rows))))
        = length [r \<leftarrow> rows. f r = i]"
      by (rule count_partition) (auto simp: distinct_unique set_unique)
    then show ?thesis by (simp add: conj_commute)
  qed
  show ?thesis
    unfolding inner by (rule count_partition) (auto simp: distinct_unique set_unique)
qed

text \<open>
  C5.  In the pivot of platforms by sentiments, the cell of a platform and a sentiment
  that both occur in the frame is the number of posts with exactly that pair; it is 0
  when no post has the pair; and the cells add up to the number of rows of the frame.
\<close>

theorem pivot_counts:
  "(p \<in> Platform ` set df \<and> s \<in> Sentiment ` set df \<longrightarrow>
      cell_at (sentiment_platform_counts df) p s
        = Some (length [r \<leftarrow> df. Platform r = p \<and> Sentiment r = s]))
   \<and> (p \<in> Platform ` set df \<and> s \<in> Sentiment ` set df
        \<and> (p, s) \<notin> (\<lambda>r. (Platform r, Sentiment r)) ` set df \<longrightarrow>
      cell_at (sentiment_platform_counts df) p s = Some 0)
   \<and> cells_sum (sentiment_platform_counts df) = length df"
proof -
  have "[r \<leftarrow> df. Platform r = p \<and> Sentiment r = s] = []"
    if "(p, s) \<notin> (\<lambda>r. (Platform r, Sentiment r)) ` set df"
    using that by (auto simp: filter_empty_conv)
  then show ?thesis
    unfolding sentiment_platform_counts_def unstack_groupby cell_at_tabulate cells_sum_tabulate
      cross_count
    by (auto simp: set_unique)
qed

theorem pivot_counts_witness:
  "''Twitter'' \<in> Platform ` set fixture \<and> ''Joy'' \<in> Sentiment ` set fixture
   \<and> cell_at (sentiment_platform_counts fixture) ''Twitter'' ''Joy'' = Some 2
   \<and> ''Anger'' \<in> Sentiment ` set fixture
   \<and> (''Twitter'', ''Anger'') \<notin> (\<lambda>r. (Platform r, Sentiment r)) ` set fixture
   \<and> cell_at (sentiment_platform_counts fixture) ''Twitter'' ''Anger'' = Some 0
   \<and> cells_sum (sentiment_platform_counts fixture) = 5"
proof -
  have p: "Platform ` set fixture = set (map Platform fixture)" by simp
  have s: "Sentiment ` set fixture = set (map Sentiment fixture)" by simp
  have ps: "(\<lambda>r. (Platform r, Sentiment r)) ` set fixture
      = set (map (\<lambda>r. (Platform r, Sentiment r)) fixture)" by simp
  have sv: "map Sentiment fixture = [''Joy'', ''Joy'', ''Anger'', ''Joy'', ''Joy'']" by code_simp
  have psv: "map (\<lambda>r. (Platform r, Sentiment r)) fixture
      = [(''Twitter'', ''Joy''), (''Twitter'', ''Joy''), (''Facebook'', ''Anger''),
         (''Facebook'', ''Joy''), (''Instagram'', ''Joy'')]" by code_simp
  have n: "length [r \<leftarrow> fixture. Platform r = ''Twitter'' \<and> Sentiment r = ''Joy''] = 2" by code_simp
  have l: "length fixture = 5" by code_simp
  show ?thesis
    using pivot_counts [of "''Twitter''" fixture "''Joy''"]
      pivot_counts [of "''Twitter''" fixture "''Anger''", THEN conjunct2]
    unfolding p s ps fixture_platforms sv psv n l by simp
qed

section \<open>Top 10 sentiments\<close>

lemma tabulate_eq:
  "\<forall>p \<in> set ps. snd p = h (fst p) \<Longrightarrow> ps = map (\<lambda>k. (k, h k)) (map fst ps)"
  by (induction ps) (auto simp: prod_eq_iff)

lemma value_sizes:
  "size_of (groups id xs) = map (\<lambda>k. (k, length [x \<leftarrow> xs. x = k])) (unique xs)"
proof -
  let ?base = "size_of (groups id xs)"
  have keys: "map fst ?base = unique xs"
    using groups_keys [of id xs] by (simp add: size_of_keys)
  have "snd p = length [x \<leftarrow> xs. x = fst p]" if "p \<in> set ?base" for p
  proof -
    have "distinct (map fst ?base)" by (simp add: keys distinct_unique)
    with that have "map_of ?base (fst p) = Some (snd p)" by simp
    then show ?thesis
      by (auto simp: size_of_map_of groups_map_of split: if_splits)
  qed
  then have "?base = map (\<lambda>k. (k, length [x \<leftarrow> xs. x = k])) (map fst ?base)"
    by (intro tabulate_eq) simp
  then show ?thesis by (simp only: keys)
qed

lemma nlargest_value_counts:
  "nlargest n (value_counts xs) = take n (value_counts xs)"
  by (simp add: nlargest_def value_counts_def sort_key_id_if_sorted)

lemma sum_list_insort_key:
  "sum_list (map g (insort_key f x xs)) = g x + sum_list (map (g :: 'a \<Rightarrow> nat) xs)"
  by (induction xs) simp_all

lemma sum_list_sort_key: "sum_list (map g (sort_key f xs)) = sum_list (map (g :: 'a \<Rightarrow> nat) xs)"
  by (induction xs) (simp_all add: sum_list_insort_key)

lemma distinct_map_insort_key:
  "distinct (map g (insort_key f x xs)) \<longleftrightarrow> g x \<notin> g ` set xs \<and> distinct (map g xs)"
  by (induction xs) (auto simp: set_insort_key)

lemma distinct_map_sort_key: "distinct (map g (sort_key f xs)) \<longleftrightarrow> distinct (map g xs)"
  by (induction xs) (simp_all add: distinct_map_insort_key)

lemma value_counts_set:
  "set (value_counts xs) = (\<lambda>k. (k, length [x \<leftarrow> xs. x = k])) ` set xs"
  by (simp add: value_counts_def value_sizes set_unique)

lemma value_counts_distinct: "distinct (map fst (value_counts xs))"
  by (simp add: value_counts_def distinct_map_sort_key value_sizes comp_def distinct_unique)

lemma value_counts_length: "length (value_counts xs) = card (set xs)"
  using distinct_card [OF distinct_unique, of xs]
  by (simp add: value_counts_def value_sizes set_unique)

lemma value_counts_sum: "sum_list (map snd (value_counts xs)) = length xs"
proof -
  have "sum_list (map snd (value_counts xs))
      = sum_list (map (\<lambda>k. length [x \<leftarrow> xs. id x = k]) (unique xs))"
    by (simp add: value_counts_def sum_list_sort_key value_sizes comp_def)
  also have "\<dots> = length xs"
    by (rule count_partition) (simp_all add: distinct_unique set_unique)
  finally show ?thesis .
qed

lemma value_counts_sorted: "sorted (map (\<lambda>c. - int (snd c)) (value_counts xs))"
  by (simp add: value_counts_def)

lemma take_drop_sorted:
  assumes "sorted (map K S)" "a \<in> set (take n S)" "b \<in> set (drop n S)"
  shows "K a \<le> K b"
proof -
  have "sorted (map K (take n S) @ map K (drop n S))"
    using assms(1) by (simp flip: map_append)
  with assms(2,3) show ?thesis by (auto simp: sorted_append)
qed

lemma sum_list_take_le: "sum_list (take n (ns :: nat list)) \<le> sum_list ns"
proof -
  have "sum_list ns = sum_list (take n ns) + sum_list (drop n ns)"
    by (metis append_take_drop_id sum_list_append)
  then show ?thesis by simp
qed


lemma count_map: "length [x \<leftarrow> map f xs. x = k] = length [r \<leftarrow> xs. f r = k]"
  by (simp add: filter_map comp_def)

lemma sentiment_counts_set:
  "(s, n) \<in> set (sentiment_counts df) \<Longrightarrow>
     s \<in> Sentiment ` set df \<and> n = length [r \<leftarrow> df. Sentiment r = s]"
proof -
  assume "(s, n) \<in> set (sentiment_counts df)"
  then have "(s, n) \<in> set (value_counts (map Sentiment df))"
    by (auto simp: sentiment_counts_def nlargest_value_counts dest: in_set_takeD)
  then show ?thesis
    by (auto simp: value_counts_set comp_def)
qed

lemma top_10_above_rest:
  assumes "s \<in> set (top_10_sentiments df)"
    and "t \<in> Sentiment ` set df - set (top_10_sentiments df)"
  shows "length [r \<leftarrow> df. Sentiment r = t] \<le> length [r \<leftarrow> df. Sentiment r = s]"
proof -
  let ?vc = "value_counts (map Sentiment df)"
  let ?n = "\<lambda>k. length [r \<leftarrow> df. Sentiment r = k]"
  have top: "top_10_sentiments df = map fst (take 10 ?vc)"
    by (simp add: top_10_sentiments_def nlargest_value_counts)
  have elem: "snd c = ?n (fst c)" if "c \<in> set ?vc" for c
    using that by (auto simp: value_counts_set comp_def)
  from assms(1) obtain a where a: "a \<in> set (take 10 ?vc)" "fst a = s"
    by (auto simp: top)
  from assms(2) have "(t, ?n t) \<in> set ?vc"
    by (auto simp: value_counts_set comp_def)
  then have "(t, ?n t) \<in> set (take 10 ?vc) \<union> set (drop 10 ?vc)"
    by (metis append_take_drop_id set_append)
  moreover from assms(2) have "(t, ?n t) \<notin> set (take 10 ?vc)"
    by (force simp: top)
  ultimately have b: "(t, ?n t) \<in> set (drop 10 ?vc)" by simp
  have "- int (snd a) \<le> - int (snd (t, ?n t))"
    using value_counts_sorted a(1) b by (rule take_drop_sorted)
  moreover from a have "snd a = ?n s"
    using elem [of a] by (auto dest: in_set_takeD)
  ultimately show ?thesis by simp
qed

lemma top_10_subset: "set (top_10_sentiments df) \<subseteq> Sentiment ` set df"
proof
  fix s assume "s \<in> set (top_10_sentiments df)"
  then obtain c where "c \<in> set (take 10 (value_counts (map Sentiment df)))" "fst c = s"
    by (auto simp: top_10_sentiments_def nlargest_value_counts)
  then have "c \<in> set (value_counts (map Sentiment df))" "fst c = s"
    by (auto dest: in_set_takeD)
  then show "s \<in> Sentiment ` set df"
    by (auto simp: value_counts_set)
qed

lemma top_10_distinct: "distinct (top_10_sentiments df)"
  using value_counts_distinct [of "map Sentiment df"]
  by (simp add: top_10_sentiments_def nlargest_value_counts take_map [symmetric] distinct_take)

lemma top_10_length: "length (top_10_sentiments df) = min 10 (card (Sentiment ` set df))"
  using value_counts_length [of "map Sentiment df"]
  by (simp add: top_10_sentiments_def nlargest_value_counts min.commute)

lemma sentiment_counts_sum: "sum_list (map snd (sentiment_counts df)) \<le> length df"
proof -
  have "sum_list (map snd (sentiment_counts df))
      = sum_list (take 10 (map snd (value_counts (map Sentiment df))))"
    by (simp add: sentiment_counts_def nlargest_value_counts take_map)
  also have "\<dots> \<le> sum_list (map snd (value_counts (map Sentiment df)))"
    by (rule sum_list_take_le)
  finally show ?thesis by (simp add: value_counts_sum)
qed

lemma sentiment_likes_keys: "set (map fst (sentiment_likes df)) = set (top_10_sentiments df)"
proof -
  have "map fst (likes_mean gs) = map fst gs" for gs :: "(string \<times> (nat \<times> post) list) list"
    by (simp add: likes_mean_def case_prod_unfold)
  then have "set (map fst (sentiment_likes df)) = Sentiment ` set (sentiment_filtered_df df)"
    by (simp add: sentiment_likes_def groupby_keys set_unique)
  also have "\<dots> = set (top_10_sentiments df)"
    using top_10_subset [of df] by (auto simp: sentiment_filtered_df_def)
  finally show ?thesis .
qed

text \<open>
  C4.  The top-10 restriction selects at most 10 labels: as many as there are distinct
  sentiment values, up to 10, each once, and no label outside the selection occurs more
  often than a label inside.  The counts of the selected labels are their numbers of
  occurrences and add up to at most the number of rows.  The sentiment-filtered frame
  holds exactly the rows whose label is selected, and the mean likes per sentiment have
  exactly the selected labels as keys.
\<close>

theorem top_10_sentiments_highest:
  "length (top_10_sentiments df) \<le> 10
   \<and> length (top_10_sentiments df) = min 10 (card (Sentiment ` set df))
   \<and> distinct (top_10_sentiments df)
   \<and> set (top_10_sentiments df) \<subseteq> Sentiment ` set df
   \<and> (\<forall>s \<in> set (top_10_sentiments df). \<forall>t \<in> Sentiment ` set df - set (top_10_sentiments df).
         length [r \<leftarrow> df. Sentiment r = t] \<le> length [r \<leftarrow> df. Sentiment r = s])
   \<and> map fst (sentiment_counts df) = top_10_sentiments df
   \<and> (\<forall>c \<in> set (sentiment_counts df). snd c = length [r \<leftarrow> df. Sentiment r = fst c])
   \<and> sum_list (map snd (sentiment_counts df)) \<le> length df
   \<and> sentiment_filtered_df df = [r \<leftarrow> df. Sentiment r \<in> set (top_10_sentiments df)]
   \<and> Sentiment ` set (sentiment_filtered_df df) = set (top_10_sentiments df)
   \<and> set (map fst (sentiment_likes df)) = set (top_10_sentiments df)"
proof -
  have 1: "length (top_10_sentiments df) \<le> 10" by (simp add: top_10_length)
  have 2: "\<forall>s \<in> set (top_10_sentiments df). \<forall>t \<in> Sentiment ` set df - set (top_10_sentiments df).
         length [r \<leftarrow> df. Sentiment r = t] \<le> length [r \<leftarrow> df. Sentiment r = s]"
    using top_10_above_rest [of _ df] by blast
  have 3: "map fst (sentiment_counts df) = top_10_sentiments df"
    by (simp add: sentiment_counts_def top_10_sentiments_def)
  have 4: "\<forall>c \<in> set (sentiment_counts df). snd c = length [r \<leftarrow> df. Sentiment r = fst c]"
    using sentiment_counts_set [of _ _ df] by (metis prod.collapse)
  have 5: "Sentiment ` set (sentiment_filtered_df df) = set (top_10_sentiments df)"
    using top_10_subset [of df] by (auto simp: sentiment_filtered_df_def)
  show ?thesis
    using 1 2 3 4 5 top_10_length top_10_distinct top_10_subset sentiment_counts_sum
      sentiment_likes_keys
    by (simp add: sentiment_filtered_df_def)
qed

theorem top_10_sentiments_highest_witness:
  "top_10_sentiments eleven_sentiments = [''K'', ''A'', ''B'', ''C'', ''D'', ''E'', ''F'', ''G'', ''H'', ''I'']
   \<and> ''K'' \<in> set (top_10_sentiments eleven_sentiments)
   \<and> ''J'' \<in> Sentiment ` set eleven_sentiments - set (top_10_sentiments eleven_sentiments)
   \<and> length [r \<leftarrow> eleven_sentiments. Sentiment r = ''J'']
       \<le> length [r \<leftarrow> eleven_sentiments. Sentiment r = ''K'']
   \<and> (''K'', 2) \<in> set (sentiment_counts eleven_sentiments)
   \<and> length [r \<leftarrow> eleven_sentiments. Sentiment r = ''K''] = 2
   \<and> sum_list (map snd (sentiment_counts eleven_sentiments)) \<le> length eleven_sentiments"
proof -
  have top: "top_10_sentiments eleven_sentiments
      = [''K'', ''A'', ''B'', ''C'', ''D'', ''E'', ''F'', ''G'', ''H'', ''I'']" by code_simp
  have sents: "map Sentiment eleven_sentiments
      = [''A'', ''B'', ''C'', ''D'', ''E'', ''F'', ''G'', ''H'', ''I'', ''J'', ''K'', ''K'']" by code_simp
  have s: "Sentiment ` set eleven_sentiments = set (map Sentiment eleven_sentiments)" by simp
  have k: "''K'' \<in> set (top_10_sentiments eleven_sentiments)"
    unfolding top by simp
  have j: "''J'' \<in> Sentiment ` set eleven_sentiments - set (top_10_sentiments eleven_sentiments)"
    unfolding s sents top by simp
  have c: "(''K'', 2) \<in> set (sentiment_counts eleven_sentiments)"
  proof -
    have "hd (sentiment_counts eleven_sentiments) = (''K'', 2)" by code_simp
    moreover have "sentiment_counts eleven_sentiments \<noteq> []"
      using top top_10_sentiments_highest [of eleven_sentiments] by auto
    ultimately show ?thesis by (metis hd_in_set)
  qed
  from top_10_sentiments_highest [of eleven_sentiments] k j c top show ?thesis
    by (auto 0 0 dest!: bspec [where x = "(''K'', 2)"])
qed

section \<open>Dominant sentiment and filters\<close>

text \<open>
  C1.  The script assigns \<^verbatim>\<open>Total_Posts\<close> before it takes \<^verbatim>\<open>idxmax(axis=1)\<close>, so the
  row sum takes part in the maximum.  For a country with two posts of \<^verbatim>\<open>Joy\<close> and one
  of \<^verbatim>\<open>Anger\<close> the columns are Anger 1, Joy 2, Total_Posts 3: the script's dominant
  sentiment is the label \<^verbatim>\<open>Total_Posts\<close>, where the maximum among the sentiment columns
  is \<^verbatim>\<open>Joy\<close>.
\<close>

theorem dominant_sentiment_is_total_posts:
  "map (\<lambda>r. (country_name r, counts r, Dominant_Sentiment r, dominant_among_sentiments r))
     (country_sentiment joy_joy_anger)
   = [(''US'', [(''Anger'', 1), (''Joy'', 2), (''Total_Posts'', 3)], Inr ''Total_Posts'', Inr ''Joy'')]"
  by code_simp

lemma tables_ignore_selection:
  "run df sel = (run df sel')\<lparr>shown_filtered_df := filtered_df df sel\<rparr>"
  by (simp add: run_def)

lemma filtered_df_ignores_country:
  "filtered_df df sel = [r \<leftarrow> df. Year r = selected_year sel \<and> Month r = selected_month sel
                                \<and> Day r = selected_day sel]"
  by (simp add: filtered_df_def)

text \<open>
  C2.  With two posts of the same day, one from the US and one from the UK, and the
  selection US, 2023, Jan, 1, only the US post satisfies every selected predicate.  The
  script's \<^verbatim>\<open>filtered_df\<close> holds both posts, since its second assignment filters
  \<^verbatim>\<open>df\<close> by date alone; and the mean likes per platform are computed from both posts,
  not from the selected one.
\<close>

theorem filters_feed_no_table:
  "map Country (selected_rows two_countries us_jan_1) = [Some ''US'']
   \<and> map Country (shown_filtered_df (run two_countries us_jan_1)) = [Some ''US'', Some ''UK'']
   \<and> shown_platform_likes (run two_countries us_jan_1) = [(''Facebook'', Some 5), (''Twitter'', Some 10)]
   \<and> platform_likes (selected_rows two_countries us_jan_1) = [(''Twitter'', Some 10)]"
  by code_simp

section \<open>Countries with posts of several sentiments\<close>

lemma idxmax_from_last:
  "\<forall>x \<in> set (b # xs). snd x < v \<Longrightarrow> idxmax_from b (xs @ [(l, v)]) = l"
  by (induction xs arbitrary: b) simp_all

lemma idxmax_last:
  "\<forall>x \<in> set xs. snd x < v \<Longrightarrow> idxmax (xs @ [(l, v)]) = Inr l"
  by (cases xs) (simp_all add: idxmax_from_last)

lemma assign_new: "c \<notin> fst ` set line \<Longrightarrow> assign c v line = line @ [(c, v)]"
  by (induction line) auto

lemma two_members_le_sum:
  "x \<in> set xs \<Longrightarrow> y \<in> set xs \<Longrightarrow> x \<noteq> y \<Longrightarrow> f x + f y \<le> sum_list (map (f :: 'a \<Rightarrow> nat) xs)"
proof (induction xs)
  case Nil
  then show ?case by simp
next
  case (Cons a xs)
  consider "a = x" "y \<in> set xs" | "a = y" "x \<in> set xs" | "x \<in> set xs" "y \<in> set xs"
    using Cons.prems by auto
  then show ?case
  proof cases
    case 1
    then show ?thesis using member_le_sum_list [of "f y" "map f xs"] by auto
  next
    case 2
    then show ?thesis using member_le_sum_list [of "f x" "map f xs"] by auto
  next
    case 3
    then show ?thesis using Cons.IH Cons.prems(3) by simp
  qed
qed

lemma below_sum:
  assumes "a \<in> set line" "b \<in> set line" "a \<noteq> b" "0 < snd a" "0 < snd b" "x \<in> set line"
  shows "snd x < sum_list (map snd (line :: ('c \<times> nat) list))"
proof (cases "x = a")
  case True
  with assms two_members_le_sum [of x line b snd] show ?thesis by simp
next
  case False
  with assms two_members_le_sum [of x line a snd] show ?thesis by simp
qed

text \<open>
  What the script computes in general: as soon as a country has posts of two different
  sentiments, every sentiment column is below the row sum, and the dominant sentiment of
  the country is the label \<^verbatim>\<open>Total_Posts\<close>.
\<close>

lemma dominant_of_mixed_country:
  assumes "''Total_Posts'' \<notin> Sentiment ` set df"
    and "r \<in> set (country_sentiment df)"
    and "(s1, n1) \<in> set (butlast (counts r))" "(s2, n2) \<in> set (butlast (counts r))"
    and "s1 \<noteq> s2" "0 < n1" "0 < n2"
  shows "Dominant_Sentiment r = Inr ''Total_Posts''"
proof -
  let ?rows = "concat (map (\<lambda>r. case Country r of None \<Rightarrow> [] | Some c \<Rightarrow> [(c, r)]) df)"
  let ?n = "\<lambda>i c. length [cr \<leftarrow> ?rows. fst cr = i \<and> Sentiment (snd cr) = c]"
  let ?cols = "sort (unique (map (\<lambda>cr. Sentiment (snd cr)) ?rows))"
  have "set ?cols \<subseteq> Sentiment ` set df"
    by (auto simp: set_unique split: option.splits)
  with assms(1) have new: "''Total_Posts'' \<notin> set ?cols" by blast
  from assms(2) obtain i where r: "r = (let line = map (\<lambda>c. (c, ?n i c)) ?cols;
      line' = assign ''Total_Posts'' (sum_list (map snd line)) line
      in \<lparr>country_name = i, counts = line', Dominant_Sentiment = idxmax line'\<rparr>)"
    unfolding country_sentiment_def Let_def unstack_groupby by auto
  define line where "line = map (\<lambda>c. (c, ?n i c)) ?cols"
  have "''Total_Posts'' \<notin> fst ` set line"
    using new by (simp add: line_def image_image)
  then have line': "assign ''Total_Posts'' (sum_list (map snd line)) line
      = line @ [(''Total_Posts'', sum_list (map snd line))]"
    by (rule assign_new)
  from r have c: "counts r = line @ [(''Total_Posts'', sum_list (map snd line))]"
    and d: "Dominant_Sentiment r = idxmax (line @ [(''Total_Posts'', sum_list (map snd line))])"
    by (simp_all add: Let_def line_def [symmetric] line')
  from c assms(3,4) have "(s1, n1) \<in> set line" "(s2, n2) \<in> set line" by simp_all
  with assms(5-7) have "\<forall>x \<in> set line. snd x < sum_list (map snd line)"
    using below_sum [of "(s1, n1)" line "(s2, n2)"] by auto
  then show ?thesis
    unfolding d by (rule idxmax_last)
qed

section \<open>Totality of the text preprocessing\<close>

lemma longer_than_3_strings:
  "longer_than_3 (map CellStr ws) = Inr (map CellStr [word \<leftarrow> ws. length word > 3])"
  by (induction ws) simp_all

lemma join_checked_strings: "join_checked sep (map CellStr ws) = Inr (CellStr (join sep ws))"
proof -
  have "map join_item (map CellStr ws) = map Inr ws"
    by simp
  then show ?thesis
    by (simp only: join_checked_def collect_Inr sum.case)
qed

lemma preprocess_text_checked_total:
  "preprocess_text_checked t = Inr (CellStr (preprocess_text t))"
  by (simp add: preprocess_text_checked_def builtin_str_def longer_than_3_strings
      join_checked_strings preprocess_text_def)

lemma all_text_checked_total: "all_text_checked df = Inr (CellStr (all_text df))"
proof -
  let ?texts = "map (\<lambda>r. preprocess_text (Text r)) df"
  have "map (\<lambda>r. preprocess_text_checked (Text r)) df = map Inr (map CellStr ?texts)"
    by (simp add: preprocess_text_checked_total)
  then have "collect (map (\<lambda>r. preprocess_text_checked (Text r)) df)
      = collect (map Inr (map CellStr ?texts))"
    by (rule arg_cong)
  also have "\<dots> = Inr (map CellStr ?texts)"
    by (rule collect_Inr)
  finally show ?thesis
    by (simp only: all_text_checked_def sum.case join_checked_strings all_text_def)
qed

text \<open>
  C10.  Run with Python's checks, \<^verbatim>\<open>preprocess_text\<close> raises on no cell, be it a
  string, the missing value, an integer, a float or a boolean: \<^verbatim>\<open>str\<close> makes a string
  of the cell before any string method is called, and the result is the string object
  that holds \<^const>\<open>preprocess_text\<close> of the cell; applied to a whole frame and joined it
  raises on no frame.  A missing text prints as \<^verbatim>\<open>nan\<close>, one word of length 3, which the
  length test drops, so the rows with a missing text add no word to \<^verbatim>\<open>all_text\<close>.  An
  integer 2023 gives \<^verbatim>\<open>2023\<close>, and the float 2023.0 of a numeric column with a missing
  cell gives \<^verbatim>\<open>2023.0\<close>.
\<close>

theorem null_text_no_tokens:
  "preprocess_text_checked t = Inr (CellStr (preprocess_text t))
   \<and> all_text_checked df = Inr (CellStr (all_text df))
   \<and> str CellNaN = ''nan'' \<and> split (lower (str CellNaN)) = [''nan''] \<and> length ''nan'' = 3
   \<and> preprocess_text CellNaN = [] \<and> split (preprocess_text CellNaN) = []
   \<and> preprocess_text_checked CellNaN = Inr (CellStr [])
   \<and> preprocess_text (CellInt 2023) = ''2023''
   \<and> preprocess_text (CellFloat (Finite False ''2023'' 4)) = ''2023.0''
   \<and> split (all_text df) = split (all_text [r \<leftarrow> df. Text r \<noteq> CellNaN])"
proof -
  have a: "split (lower (str CellNaN)) = [''nan'']" by code_simp
  have b: "preprocess_text CellNaN = []" by code_simp
  have c: "split (preprocess_text CellNaN) = []" by code_simp
  have e: "preprocess_text (CellInt 2023) = ''2023''" by code_simp
  have f: "preprocess_text (CellFloat (Finite False ''2023'' 4)) = ''2023.0''" by code_simp
  have g: "preprocess_text_checked CellNaN = Inr (CellStr [])" by code_simp
  have d: "concat (map (\<lambda>r. split (preprocess_text (Text r))) df)
      = concat (map (\<lambda>r. split (preprocess_text (Text r))) [r \<leftarrow> df. Text r \<noteq> CellNaN])"
    by (induction df) (simp_all add: c)
  have h: "split (all_text df) = split (all_text [r \<leftarrow> df. Text r \<noteq> CellNaN])"
    using d by (simp add: all_text_def split_join comp_def)
  show ?thesis
    using a b c e f g h preprocess_text_checked_total [of t] all_text_checked_total [of df]
    by simp
qed

end
